theory Spec2Isabelle
  imports Main
begin

section \<open>JavaScript values and the browser\<close>

text \<open>
  The client is three React views (Login, Signup, Chat) and a small module of request
  helpers. All of them talk to the server through one axios instance (\<open>API\<close> in the
  views, \<open>api\<close> in the helpers), which is imported from a module that is not among the
  sources. The views keep their inputs in \<open>useState\<close> cells and the session token in
  \<open>localStorage\<close>.
\<close>

text \<open>
  A string is held as the bytes of its UTF-8 encoding.

  What a decoded JSON response may hold, plus \<open>undefined\<close>, which reading a missing
  property yields. The handlers never compute with a number, they only print it, so a
  number is named by the text \<open>String\<close> gives for it (\<open>5\<close>, \<open>-1.5\<close>, \<open>1e+21\<close>).
  An object lists its properties in the order JavaScript enumerates them (integer-like
  names first, ascending, then the others as created), each name once. Arrays are left
  out.
\<close>

datatype jsval =
    JUndefined
  | JNull
  | JBool bool
  | JNum string
  | JStr string
  | JObj "(string \<times> jsval) list"

text \<open>What a handler can throw: the rejection of the awaited request, or a TypeError.\<close>

datatype failure =
    NetworkError
  | HttpError nat jsval

datatype exn =
    AxiosError failure
  | TypeError

text \<open>
  \<open>v.k\<close> for a property name \<open>k\<close> that no primitive carries (\<open>access_token\<close>,
  \<open>bot_reply\<close>): reading it off \<open>undefined\<close> or \<open>null\<close> throws, an object answers
  with its entry or \<open>undefined\<close>, every other value with \<open>undefined\<close>.
\<close>

fun get_prop :: "jsval \<Rightarrow> string \<Rightarrow> exn + jsval" where
  "get_prop JUndefined k = Inl TypeError"
| "get_prop JNull k = Inl TypeError"
| "get_prop (JObj props) k =
     (case map_of props k of None \<Rightarrow> Inr JUndefined | Some v \<Rightarrow> Inr v)"
| "get_prop v k = Inr JUndefined"

text \<open>
  \<open>String(v)\<close>, which \<open>setItem\<close> and \<open>URLSearchParams\<close> apply. An object answers
  through its \<open>toString\<close>: the inherited one gives \<open>[object Object]\<close>, but an own
  property of that name, which in decoded JSON is never a function, leaves nothing to
  call, and the conversion throws.
\<close>

fun to_string :: "jsval \<Rightarrow> exn + string" where
  "to_string JUndefined = Inr ''undefined''"
| "to_string JNull = Inr ''null''"
| "to_string (JBool b) = Inr (if b then ''true'' else ''false'')"
| "to_string (JNum shown) = Inr shown"
| "to_string (JStr s) = Inr s"
| "to_string (JObj props) =
     (if ''toString'' \<in> set (map fst props) then Inl TypeError else Inr ''[object Object]'')"

subsection \<open>Requests\<close>

datatype http_method = GET | POST

text \<open>
  The second argument of \<open>post\<close>: nothing, \<open>null\<close>, a \<open>URLSearchParams\<close> (its
  name/value pairs in order) or a plain object.
\<close>

datatype req_body =
    NoBody
  | NullBody
  | FormBody "(string \<times> string) list"
  | JsonBody jsval

record request =
  verb :: http_method
  url :: string
  body :: req_body
  params :: "(string \<times> jsval) list option"

record response =
  status :: nat
  data :: jsval

datatype outcome =
    Resolved response
  | Rejected failure

text \<open>
  The axios instance is a parameter: any function from the request to what awaiting it
  yields. \<open>sent\<close> records the requests handed to it, in order.
\<close>

type_synonym api = "request \<Rightarrow> outcome"

record net =
  sent :: "request list"

definition issue :: "api \<Rightarrow> request \<Rightarrow> 'a net_scheme \<Rightarrow> outcome \<times> 'a net_scheme" where
  "issue API r w = (API r, w\<lparr>sent := sent w @ [r]\<rparr>)"

text \<open>
  \<open>post(url, data, config)\<close>: of the config only \<open>params\<close> is ever given; a call with
  fewer arguments leaves the body \<open>NoBody\<close> and the params \<open>None\<close>.
\<close>

definition post :: "api \<Rightarrow> string \<Rightarrow> req_body \<Rightarrow> (string \<times> jsval) list option \<Rightarrow>
    'a net_scheme \<Rightarrow> outcome \<times> 'a net_scheme" where
  "post API u b cfg w = issue API \<lparr>verb = POST, url = u, body = b, params = cfg\<rparr> w"

definition get :: "api \<Rightarrow> string \<Rightarrow> 'a net_scheme \<Rightarrow> outcome \<times> 'a net_scheme" where
  "get API u w = issue API \<lparr>verb = GET, url = u, body = NoBody, params = None\<rparr> w"

subsection \<open>The browser: localStorage, the router, alerts\<close>

record browser = net +
  storage :: "string \<rightharpoonup> string"
  route :: string
  alerts :: "string list"

text \<open>\<open>setItem\<close> stores \<open>String(v)\<close>, and throws where that conversion throws.\<close>

definition setItem :: "string \<Rightarrow> jsval \<Rightarrow> browser \<Rightarrow> exn + browser" where
  "setItem k v w =
     (case to_string v of
        Inl e \<Rightarrow> Inl e
      | Inr shown \<Rightarrow> Inr (w\<lparr>storage := (storage w)(k \<mapsto> shown)\<rparr>))"

definition nav :: "string \<Rightarrow> browser \<Rightarrow> browser" where
  "nav path w = w\<lparr>route := path\<rparr>"

definition alert :: "string \<Rightarrow> browser \<Rightarrow> browser" where
  "alert line w = w\<lparr>alerts := alerts w @ [line]\<rparr>"

text \<open>\<open>URLSearchParams\<close>: \<open>append\<close> adds a pair at the end.\<close>

definition append_param :: "(string \<times> string) list \<Rightarrow> string \<Rightarrow> string \<Rightarrow> (string \<times> string) list" where
  "append_param form k v = form @ [(k, v)]"

section \<open>The Login view\<close>

text \<open>
  \<open>login\<close> of Login: the whole body is inside \<open>try\<close>, and the \<open>catch\<close> takes
  every exception (of the request, of reading \<open>access_token\<close>, of \<open>setItem\<close>), so
  the handler itself always fulfils with \<open>undefined\<close>.
\<close>

definition login :: "string \<Rightarrow> string \<Rightarrow> api \<Rightarrow> browser \<Rightarrow> (exn + jsval) \<times> browser" where
  "login username password API w =
     (let form = append_param (append_param [] ''username'' username) ''password'' password;
          (res, w1) = post API ''/login'' (FormBody form) None w
      in case res of
           Rejected e \<Rightarrow> (Inr JUndefined, alert ''Login failed'' w1)
         | Resolved r \<Rightarrow>
             (case get_prop (data r) ''access_token'' of
                Inl e \<Rightarrow> (Inr JUndefined, alert ''Login failed'' w1)
              | Inr tok \<Rightarrow>
                  (case setItem ''token'' tok w1 of
                     Inl e \<Rightarrow> (Inr JUndefined, alert ''Login failed'' w1)
                   | Inr w2 \<Rightarrow> (Inr JUndefined, nav ''/chat'' w2))))"

section \<open>The Signup view\<close>

text \<open>
  \<open>signup\<close> of Signup: the credentials are spliced into the URL as they are, and the
  request has no body.
\<close>

definition signup :: "string \<Rightarrow> string \<Rightarrow> api \<Rightarrow> browser \<Rightarrow> (exn + jsval) \<times> browser" where
  "signup username password API w =
     (let (res, w1) = post API (''/signup?username='' @ username @ ''&password='' @ password) NoBody None w
      in case res of
           Rejected e \<Rightarrow> (Inr JUndefined, alert ''Signup failed'' w1)
         | Resolved r \<Rightarrow> (Inr JUndefined, nav ''/'' (alert ''Signup success'' w1)))"

section \<open>The Chat view\<close>

record chat = net +
  msg :: string
  reply :: jsval

definition chat_init :: chat where
  "chat_init = \<lparr>sent = [], msg = '''', reply = JStr ''''\<rparr>"

definition setMsg :: "string \<Rightarrow> chat \<Rightarrow> chat" where
  "setMsg v c = c\<lparr>msg := v\<rparr>"

definition setReply :: "jsval \<Rightarrow> chat \<Rightarrow> chat" where
  "setReply v c = c\<lparr>reply := v\<rparr>"

text \<open>
  \<open>send\<close> of Chat has no \<open>try\<close>: a rejected request, or a response without
  \<open>data\<close>, rejects the handler before \<open>setReply\<close> runs.
\<close>

definition send :: "api \<Rightarrow> chat \<Rightarrow> (exn + jsval) \<times> chat" where
  "send API c =
     (let (res, c1) = post API ''/chat'' (JsonBody (JObj [(''message'', JStr (msg c))])) None c
      in case res of
           Rejected e \<Rightarrow> (Inl (AxiosError e), c1)
         | Resolved r \<Rightarrow>
             (case get_prop (data r) ''bot_reply'' of
                Inl e \<Rightarrow> (Inl e, c1)
              | Inr v \<Rightarrow> (Inr JUndefined, setReply v c1)))"

text \<open>
  The line the view renders, \<open>Bot: {reply}\<close>. React shows a string or a number as its
  text and nothing for \<open>undefined\<close>, \<open>null\<close> and the booleans; an object is not a
  valid child, rendering it throws, and with no error boundary in the application the
  view is unmounted (\<open>None\<close>).
\<close>

fun child_text :: "jsval \<Rightarrow> string option" where
  "child_text (JStr s) = Some s"
| "child_text (JNum shown) = Some shown"
| "child_text (JObj props) = None"
| "child_text v = Some []"

definition render :: "chat \<Rightarrow> string option" where
  "render c = map_option (\<lambda>shown. ''Bot: '' @ shown) (child_text (reply c))"

text \<open>
  All that the view's state holds of the conversation, read as Messages: the text in
  \<open>msg\<close>, which after a click is the message just sent, and the reply in \<open>reply\<close>.
\<close>

datatype role = User | Bot

record message =
  role :: role
  content :: jsval

definition transcript :: "chat \<Rightarrow> message list" where
  "transcript c = [\<lparr>role = User, content = JStr (msg c)\<rparr>, \<lparr>role = Bot, content = reply c\<rparr>]"

text \<open>
  A run of a mounted view: for each pair the user types the text (\<open>onChange\<close>, so
  \<open>setMsg\<close>) and clicks Send, the click's handler is awaited, and the view is rendered
  with the state it left. Each click has its own answer from the server, so each pair
  carries its own \<open>API\<close>. Once rendering has thrown there is no view left to click.
\<close>

fun sends :: "(string \<times> api) list \<Rightarrow> chat \<Rightarrow> chat option" where
  "sends [] c = Some c"
| "sends ((typed, API) # rest) c =
     (let c1 = snd (send API (setMsg typed c))
      in case render c1 of None \<Rightarrow> None | Some line \<Rightarrow> sends rest c1)"

text \<open>The request a click sends for the text \<open>m\<close>, and the bot reply it brings back, if any.\<close>

definition chat_request :: "string \<Rightarrow> request" where
  "chat_request m =
     \<lparr>verb = POST, url = ''/chat'', body = JsonBody (JObj [(''message'', JStr m)]), params = None\<rparr>"

definition replied :: "api \<Rightarrow> string \<Rightarrow> jsval option" where
  "replied API m =
     (case API (chat_request m) of
        Rejected e \<Rightarrow> None
      | Resolved r \<Rightarrow> (case get_prop (data r) ''bot_reply'' of Inl e \<Rightarrow> None | Inr v \<Rightarrow> Some v))"

section \<open>The request helpers\<close>

text \<open>
  \<open>new URLSearchParams(data)\<close> for an object \<open>data\<close>: one pair per property, in the
  order of enumeration, the value turned into a string; it throws where that conversion
  throws.
\<close>

fun URLSearchParams :: "(string \<times> jsval) list \<Rightarrow> exn + (string \<times> string) list" where
  "URLSearchParams [] = Inr []"
| "URLSearchParams ((k, v) # rest) =
     (case to_string v of
        Inl e \<Rightarrow> Inl e
      | Inr shown \<Rightarrow>
          (case URLSearchParams rest of
             Inl e \<Rightarrow> Inl e
           | Inr pairs \<Rightarrow> Inr ((k, shown) # pairs)))"

definition sendMessage :: "api \<Rightarrow> jsval \<Rightarrow> 'a net_scheme \<Rightarrow> outcome \<times> 'a net_scheme" where
  "sendMessage API message w = post API ''/chat'' (JsonBody (JObj [(''message'', message)])) None w"

definition getHistory :: "api \<Rightarrow> 'a net_scheme \<Rightarrow> outcome \<times> 'a net_scheme" where
  "getHistory API w = get API ''/chat/history'' w"

text \<open>
  \<open>loginUser\<close> builds the form before it calls \<open>post\<close>: where the form cannot be
  built it throws and no request is made.
\<close>

definition loginUser :: "api \<Rightarrow> (string \<times> jsval) list \<Rightarrow> 'a net_scheme \<Rightarrow>
    (exn + outcome) \<times> 'a net_scheme" where
  "loginUser API obj w =
     (case URLSearchParams obj of
        Inl e \<Rightarrow> (Inl e, w)
      | Inr form \<Rightarrow> (let (res, w1) = post API ''/login'' (FormBody form) None w in (Inr res, w1)))"

definition signupUser :: "api \<Rightarrow> (string \<times> jsval) list \<Rightarrow> 'a net_scheme \<Rightarrow> outcome \<times> 'a net_scheme" where
  "signupUser API obj w = post API ''/signup'' NullBody (Some obj) w"

section \<open>Reading the query of a URL\<close>

text \<open>
  What the receiving endpoint reads off the URL a handler passes to \<open>post\<close>, after the
  URL standard. On the client the URL parser first strips leading and trailing C0
  control characters and spaces and removes every tab and newline; the fragment (from
  the first \<open>#\<close>) is never sent, and the query starts after the first \<open>?\<close>. The
  client also percent-encodes some characters of the query (controls, the space, quotes,
  angle brackets, everything beyond ASCII); the endpoint's percent-decoding undoes
  exactly that, so the step is left out on both sides.
\<close>

definition c0_or_space :: "char \<Rightarrow> bool" where
  "c0_or_space c = ((of_char c :: nat) \<le> 32)"

definition tab_or_newline :: "char \<Rightarrow> bool" where
  "tab_or_newline c = ((of_char c :: nat) = 9 \<or> (of_char c :: nat) = 10 \<or> (of_char c :: nat) = 13)"

definition client_trim :: "string \<Rightarrow> string" where
  "client_trim u =
     filter (\<lambda>c. \<not> tab_or_newline c)
       (rev (dropWhile c0_or_space (rev (dropWhile c0_or_space u))))"

definition query_string :: "string \<Rightarrow> string" where
  "query_string u =
     drop 1 (dropWhile (\<lambda>c. c \<noteq> CHR ''?'') (takeWhile (\<lambda>c. c \<noteq> CHR ''#'') (client_trim u)))"

text \<open>
  The endpoint's parser for \<open>application/x-www-form-urlencoded\<close>: the pieces of the
  query are separated by \<open>&\<close>, empty pieces are skipped, a piece is split at its first
  \<open>=\<close>, and in name and value \<open>+\<close> stands for a space, \<open>%XX\<close> for the byte with
  that hexadecimal code, and the bytes so obtained are decoded as UTF-8.
\<close>

fun split_on :: "char \<Rightarrow> string \<Rightarrow> string list" where
  "split_on sep [] = [[]]"
| "split_on sep (c # cs) =
     (if c = sep then [] # split_on sep cs
      else (case split_on sep cs of [] \<Rightarrow> [[c]] | piece # pieces \<Rightarrow> (c # piece) # pieces))"

definition hex_val :: "char \<Rightarrow> nat option" where
  "hex_val c =
     (let n = (of_char c :: nat)
      in if 48 \<le> n \<and> n \<le> 57 then Some (n - 48)
         else if 65 \<le> n \<and> n \<le> 70 then Some (n - 55)
         else if 97 \<le> n \<and> n \<le> 102 then Some (n - 87)
         else None)"

fun percent_decode :: "string \<Rightarrow> string" where
  "percent_decode [] = []"
| "percent_decode (c # cs) =
     (if c = CHR ''%'' then
        (case cs of
           a # b # rest \<Rightarrow>
             (case (hex_val a, hex_val b) of
                (Some x, Some y) \<Rightarrow> char_of (16 * x + y) # percent_decode rest
              | _ \<Rightarrow> c # percent_decode cs)
         | _ \<Rightarrow> c # percent_decode cs)
      else c # percent_decode cs)"

text \<open>
  UTF-8 decoding, the text held again as UTF-8 bytes: a well-formed sequence passes, and
  each maximal ill-formed part (a byte that cannot start a character, or a start not
  followed by the bytes it needs) becomes U+FFFD, the bytes \<open>EF BF BD\<close>; the byte that
  broke a sequence is read again as a start.
\<close>

definition replacement :: string where
  "replacement = [char_of (239 :: nat), char_of (191 :: nat), char_of (189 :: nat)]"

definition between :: "nat \<Rightarrow> nat \<Rightarrow> char \<Rightarrow> bool" where
  "between lo hi c = (lo \<le> (of_char c :: nat) \<and> (of_char c :: nat) \<le> hi)"

fun utf8_decode :: "string \<Rightarrow> string" where
  "utf8_decode [] = []"
| "utf8_decode (b # bs) =
     (if between 0 127 b then b # utf8_decode bs
      else if between 194 223 b then
        (case bs of
           [] \<Rightarrow> replacement
         | c1 # r1 \<Rightarrow>
             if between 128 191 c1 then b # c1 # utf8_decode r1
             else replacement @ utf8_decode bs)
      else if between 224 239 b then
        (case bs of
           [] \<Rightarrow> replacement
         | c1 # r1 \<Rightarrow>
             if between (if between 224 224 b then 160 else 128)
                        (if between 237 237 b then 159 else 191) c1 then
               (case r1 of
                  [] \<Rightarrow> replacement
                | c2 # r2 \<Rightarrow>
                    if between 128 191 c2 then b # c1 # c2 # utf8_decode r2
                    else replacement @ utf8_decode r1)
             else replacement @ utf8_decode bs)
      else if between 240 244 b then
        (case bs of
           [] \<Rightarrow> replacement
         | c1 # r1 \<Rightarrow>
             if between (if between 240 240 b then 144 else 128)
                        (if between 244 244 b then 143 else 191) c1 then
               (case r1 of
                  [] \<Rightarrow> replacement
                | c2 # r2 \<Rightarrow>
                    if between 128 191 c2 then
                      (case r2 of
                         [] \<Rightarrow> replacement
                       | c3 # r3 \<Rightarrow>
                           if between 128 191 c3 then b # c1 # c2 # c3 # utf8_decode r3
                           else replacement @ utf8_decode r2)
                    else replacement @ utf8_decode r1)
             else replacement @ utf8_decode bs)
      else replacement @ utf8_decode bs)"

definition form_decode :: "string \<Rightarrow> string" where
  "form_decode s =
     utf8_decode (percent_decode (map (\<lambda>c. if c = CHR ''+'' then CHR '' '' else c) s))"

definition parse_pair :: "string \<Rightarrow> string \<times> string" where
  "parse_pair piece =
     (form_decode (takeWhile (\<lambda>c. c \<noteq> CHR ''='') piece),
      form_decode (drop 1 (dropWhile (\<lambda>c. c \<noteq> CHR ''='') piece)))"

definition query_params :: "string \<Rightarrow> (string \<times> string) list" where
  "query_params u = map parse_pair (filter (\<lambda>piece. piece \<noteq> []) (split_on CHR ''&'' (query_string u)))"

text \<open>
  ASCII text, and text of printable ASCII characters other than \<open>&\<close>, \<open>#\<close>, \<open>+\<close>
  and \<open>%\<close>, which nothing on the way from the handler to the endpoint touches.
\<close>

definition ascii :: "string \<Rightarrow> bool" where
  "ascii s = list_all (between 0 127) s"

definition plain :: "string \<Rightarrow> bool" where
  "plain s = list_all (\<lambda>c. between 33 126 c \<and> c \<notin> set ''&#+%'') s"

section \<open>The request dispatcher\<close>

text \<open>
  Modelled from the spec: the data of the RequestDispatcher and its SessionStore. The
  views and helpers hand every request to the axios instance; the module that builds it,
  and with it whatever it does about the session, is not among the sources. A status is
  a success, an authorization failure, or another status with its code.
\<close>

record session =
  token :: string
  issuedAt :: nat

datatype encoding = FormEncoded | QueryParameters | StructuredBody

record request_spec =
  spec_method :: http_method
  path :: string
  encoding :: encoding
  payload :: jsval
  authorized :: bool

datatype dispatch_error =
    Unauthenticated
  | Network
  | Remote nat jsval

datatype wire_status = Success | AuthorizationFailure | OtherStatus nat

datatype transport_result =
    NoResponse
  | Response wire_status jsval

text \<open>
  Modelled from the spec: the transport under the missing dispatcher, what the network
  answers to a request and the bearer token on it; \<open>transport_calls\<close> counts its uses.
\<close>

type_synonym transport = "request_spec \<Rightarrow> string option \<Rightarrow> transport_result"

record dispatcher =
  session_store :: "session option"
  transport_calls :: nat

text \<open>
  Modelled from the spec: the SessionStore (\<open>set\<close>, \<open>get\<close>, \<open>clear\<close>) of the
  missing API module.
\<close>

definition store_set :: "session \<Rightarrow> dispatcher \<Rightarrow> dispatcher" where
  "store_set s d = d\<lparr>session_store := Some s\<rparr>"

definition store_get :: "dispatcher \<Rightarrow> session option" where
  "store_get d = session_store d"

definition store_clear :: "dispatcher \<Rightarrow> dispatcher" where
  "store_clear d = d\<lparr>session_store := None\<rparr>"

text \<open>
  Modelled from the spec: the one network round trip of the missing API module's
  dispatcher, with the outcome turned into the dispatcher's result. An authorization
  failure clears the store.
\<close>

definition round_trip :: "transport \<Rightarrow> request_spec \<Rightarrow> string option \<Rightarrow> dispatcher \<Rightarrow>
    (dispatch_error + jsval) \<times> dispatcher" where
  "round_trip tr spec bearer d =
     (let d1 = d\<lparr>transport_calls := Suc (transport_calls d)\<rparr>
      in case tr spec bearer of
           NoResponse \<Rightarrow> (Inl Network, d1)
         | Response st b \<Rightarrow>
             (case st of
                AuthorizationFailure \<Rightarrow> (Inl Unauthenticated, store_clear d1)
              | OtherStatus n \<Rightarrow> (Inl (Remote n b), d1)
              | Success \<Rightarrow> (Inr b, d1)))"

text \<open>
  Modelled from the spec: \<open>send\<close> of the RequestDispatcher, the missing API module. An
  authorized request without a session fails before the transport is used; with a
  session it carries the token as bearer credential; an unauthorized request carries
  none.
\<close>

definition dispatcher_send :: "transport \<Rightarrow> request_spec \<Rightarrow> dispatcher \<Rightarrow>
    (dispatch_error + jsval) \<times> dispatcher" where
  "dispatcher_send tr spec d =
     (if authorized spec then
        (case store_get d of
           None \<Rightarrow> (Inl Unauthenticated, d)
         | Some s \<Rightarrow> round_trip tr spec (Some (token s)) d)
      else round_trip tr spec None d)"

section \<open>What one call of each handler does\<close>

lemma login_run:
  "login username password API w =
     (let r = \<lparr>verb = POST, url = ''/login'',
               body = FormBody [(''username'', username), (''password'', password)], params = None\<rparr>;
          w1 = w\<lparr>sent := sent w @ [r]\<rparr>
      in case API r of
           Rejected e \<Rightarrow> (Inr JUndefined, alert ''Login failed'' w1)
         | Resolved res \<Rightarrow>
             (case get_prop (data res) ''access_token'' of
                Inl e \<Rightarrow> (Inr JUndefined, alert ''Login failed'' w1)
              | Inr tok \<Rightarrow>
                  (case setItem ''token'' tok w1 of
                     Inl e \<Rightarrow> (Inr JUndefined, alert ''Login failed'' w1)
                   | Inr w2 \<Rightarrow> (Inr JUndefined, nav ''/chat'' w2))))"
  by (simp add: login_def post_def issue_def append_param_def Let_def)

lemma signup_run:
  "signup username password API w =
     (let r = \<lparr>verb = POST, url = ''/signup?username='' @ username @ ''&password='' @ password,
               body = NoBody, params = None\<rparr>;
          w1 = w\<lparr>sent := sent w @ [r]\<rparr>
      in case API r of
           Rejected e \<Rightarrow> (Inr JUndefined, alert ''Signup failed'' w1)
         | Resolved res \<Rightarrow> (Inr JUndefined, nav ''/'' (alert ''Signup success'' w1)))"
  by (simp add: signup_def post_def issue_def Let_def)

lemma send_run:
  "send API c =
     (let c1 = c\<lparr>sent := sent c @ [chat_request (msg c)]\<rparr>
      in case replied API (msg c) of
           Some v \<Rightarrow> (Inr JUndefined, setReply v c1)
         | None \<Rightarrow>
             (case API (chat_request (msg c)) of
                Rejected e \<Rightarrow> (Inl (AxiosError e), c1)
              | Resolved res \<Rightarrow> (Inl TypeError, c1)))"
proof (cases "API (chat_request (msg c))")
  case (Resolved res)
  then show ?thesis
    by (cases "data res")
       (simp_all add: send_def post_def issue_def replied_def chat_request_def Let_def
          split: option.splits)
next
  case (Rejected e)
  then show ?thesis
    by (simp add: send_def post_def issue_def replied_def chat_request_def Let_def)
qed

lemma send_reply:
  "reply (snd (send API c)) = (case replied API (msg c) of None \<Rightarrow> reply c | Some v \<Rightarrow> v)"
  by (simp add: send_run Let_def setReply_def split: option.splits outcome.splits)

lemma send_msg: "msg (snd (send API c)) = msg c"
  by (simp add: send_run Let_def setReply_def split: option.splits outcome.splits)

lemma send_sent: "sent (snd (send API c)) = sent c @ [chat_request (msg c)]"
  by (simp add: send_run Let_def setReply_def split: option.splits outcome.splits)

subsection \<open>Runs of the Chat view\<close>

lemma sends_step:
  "sends ((m, A) # rest) c =
     (if child_text (reply (snd (send A (setMsg m c)))) = None then None
      else sends rest (snd (send A (setMsg m c))))"
  by (simp add: Let_def render_def split: option.splits)

lemma sends_append:
  "sends (xs @ ys) c = (case sends xs c of None \<Rightarrow> None | Some c1 \<Rightarrow> sends ys c1)"
proof (induction xs arbitrary: c)
  case Nil
  then show ?case by simp
next
  case (Cons x xs)
  obtain m A where x: "x = (m, A)" by (cases x)
  show ?case
    using Cons.IH by (simp add: x sends_step del: sends.simps)
qed

text \<open>Every call answered with a string: the view stays, holding the last pair.\<close>

lemma sends_strings:
  assumes "map (\<lambda>(m, A). replied A m) cs = map (\<lambda>shown. Some (JStr shown)) vs"
  shows "\<exists>c1. sends cs c = Some c1
           \<and> msg c1 = (if cs = [] then msg c else fst (last cs))
           \<and> reply c1 = (if vs = [] then reply c else JStr (last vs))"
  using assms
proof (induction cs arbitrary: c vs)
  case Nil
  then show ?case by simp
next
  case (Cons x cs)
  obtain m A where x: "x = (m, A)" by (cases x)
  from Cons.prems obtain v vs1 where vs: "vs = v # vs1"
    and v: "replied A m = Some (JStr v)"
    and rest: "map (\<lambda>(m, A). replied A m) cs = map (\<lambda>shown. Some (JStr shown)) vs1"
    by (cases vs) (auto simp: x)
  let ?c1 = "snd (send A (setMsg m c))"
  have c1: "reply ?c1 = JStr v" "msg ?c1 = m"
    by (simp_all add: send_reply send_msg setMsg_def v)
  from Cons.IH [OF rest, of ?c1] obtain c2 where c2: "sends cs ?c1 = Some c2"
    and "msg c2 = (if cs = [] then msg ?c1 else fst (last cs))"
    and "reply c2 = (if vs1 = [] then reply ?c1 else JStr (last vs1))"
    by blast
  then show ?case
    using c1 by (simp add: x vs sends_step del: sends.simps)
qed

text \<open>Calls that all fail leave a mounted view mounted, with the reply it had.\<close>

lemma sends_all_fail:
  assumes "child_text (reply c) \<noteq> None"
    and "list_all (\<lambda>(m, A). replied A m = None) cs"
  shows "\<exists>c1. sends cs c = Some c1 \<and> reply c1 = reply c
           \<and> msg c1 = (if cs = [] then msg c else fst (last cs))"
  using assms
proof (induction cs arbitrary: c)
  case Nil
  then show ?case by simp
next
  case (Cons x cs)
  obtain m A where x: "x = (m, A)" by (cases x)
  let ?c1 = "snd (send A (setMsg m c))"
  from Cons.prems have failed: "replied A m = None"
    and rest: "list_all (\<lambda>(m, A). replied A m = None) cs"
    by (simp_all add: x)
  have c1: "reply ?c1 = reply c" "msg ?c1 = m"
    by (simp_all add: send_reply send_msg setMsg_def failed)
  with Cons.prems(1) have "child_text (reply ?c1) \<noteq> None" by simp
  from Cons.IH [OF this rest] obtain c2 where "sends cs ?c1 = Some c2"
    and "reply c2 = reply ?c1"
    and "msg c2 = (if cs = [] then msg ?c1 else fst (last cs))"
    by blast
  then show ?case
    using c1 Cons.prems(1) by (simp add: x sends_step del: sends.simps)
qed

text \<open>Calls that fail or bring a reply React can render leave a mounted view mounted.\<close>

lemma sends_stay_mounted:
  assumes "child_text (reply c) \<noteq> None"
    and "list_all (\<lambda>(m, A). case replied A m of None \<Rightarrow> True | Some v \<Rightarrow> child_text v \<noteq> None) cs"
  shows "\<exists>c1. sends cs c = Some c1 \<and> child_text (reply c1) \<noteq> None"
  using assms
proof (induction cs arbitrary: c)
  case Nil
  then show ?case by simp
next
  case (Cons x cs)
  obtain m A where x: "x = (m, A)" by (cases x)
  let ?c1 = "snd (send A (setMsg m c))"
  from Cons.prems have here: "case replied A m of None \<Rightarrow> True | Some v \<Rightarrow> child_text v \<noteq> None"
    and rest: "list_all (\<lambda>(m, A). case replied A m of None \<Rightarrow> True | Some v \<Rightarrow> child_text v \<noteq> None) cs"
    by (simp_all add: x)
  have mounted: "child_text (reply ?c1) \<noteq> None"
    using here Cons.prems(1) by (simp add: send_reply setMsg_def split: option.splits)
  from Cons.IH [OF this rest] obtain c2 where "sends cs ?c1 = Some c2"
    and "child_text (reply c2) \<noteq> None"
    by blast
  then show ?case
    using mounted by (simp add: x sends_step del: sends.simps)
qed

text \<open>A reply that is an object takes the view down, whatever is clicked afterwards.\<close>

lemma sends_object_reply_unmounts:
  assumes "replied A m = Some (JObj props)"
  shows "sends ((m, A) # rest) c = None"
  using assms by (simp add: sends_step send_reply setMsg_def del: sends.simps)

section \<open>Login\<close>

text \<open>
  C1. Whenever the login request resolves with a response whose data carries the string
  \<open>tok\<close> as \<open>access_token\<close>, the storage afterwards is the storage before with
  \<open>tok\<close> under the one key \<open>token\<close> (no other key is touched), and the view has
  moved on to \<open>/chat\<close>.
\<close>

theorem login_success_stores_token:
  assumes "API \<lparr>verb = POST, url = ''/login'',
             body = FormBody [(''username'', username), (''password'', password)],
             params = None\<rparr> = Resolved res"
    and "data res = JObj props"
    and "map_of props ''access_token'' = Some (JStr tok)"
  shows "storage (snd (login username password API w)) = (storage w)(''token'' \<mapsto> tok)
       \<and> route (snd (login username password API w)) = ''/chat''"
  using assms by (simp add: login_run Let_def nav_def setItem_def)

theorem login_success_stores_token_witness:
  "storage (snd (login ''alice'' ''pw''
      (\<lambda>r. Resolved \<lparr>status = 200, data = JObj [(''access_token'', JStr ''tok123'')]\<rparr>)
      \<lparr>sent = [], storage = Map.empty, route = ''/'', alerts = []\<rparr>)) ''token'' = Some ''tok123''
   \<and> route (snd (login ''alice'' ''pw''
      (\<lambda>r. Resolved \<lparr>status = 200, data = JObj [(''access_token'', JStr ''tok123'')]\<rparr>)
      \<lparr>sent = [], storage = Map.empty, route = ''/'', alerts = []\<rparr>)) = ''/chat''"
  using login_success_stores_token
    [of "\<lambda>r. Resolved \<lparr>status = 200, data = JObj [(''access_token'', JStr ''tok123'')]\<rparr>"
        "''alice''" "''pw''"
        "\<lparr>status = 200, data = JObj [(''access_token'', JStr ''tok123'')]\<rparr>"
        "[(''access_token'', JStr ''tok123'')]" "''tok123''"
        "\<lparr>sent = [], storage = Map.empty, route = ''/'', alerts = []\<rparr>"]
  by simp

text \<open>
  C2. Whenever the login request is rejected, by the network or with an error status,
  the storage afterwards is the storage before (absent stays absent, a prior token
  stays), the route is unchanged, and the one thing that happens is the alert.
\<close>

theorem login_failure_keeps_store:
  assumes "API \<lparr>verb = POST, url = ''/login'',
             body = FormBody [(''username'', username), (''password'', password)],
             params = None\<rparr> = Rejected e"
  shows "storage (snd (login username password API w)) = storage w
       \<and> route (snd (login username password API w)) = route w
       \<and> alerts (snd (login username password API w)) = alerts w @ [''Login failed'']"
  using assms by (simp add: login_run Let_def alert_def)

theorem login_failure_keeps_store_witness:
  "storage (snd (login ''alice'' ''bad'' (\<lambda>r. Rejected (HttpError 401 JNull))
      \<lparr>sent = [], storage = [''token'' \<mapsto> ''old''], route = ''/'', alerts = []\<rparr>)) ''token'' = Some ''old''
   \<and> route (snd (login ''alice'' ''bad'' (\<lambda>r. Rejected (HttpError 401 JNull))
      \<lparr>sent = [], storage = [''token'' \<mapsto> ''old''], route = ''/'', alerts = []\<rparr>)) = ''/''
   \<and> storage (snd (login ''alice'' ''bad'' (\<lambda>r. Rejected NetworkError)
      \<lparr>sent = [], storage = Map.empty, route = ''/'', alerts = []\<rparr>)) ''token'' = None"
  using login_failure_keeps_store
    [of "\<lambda>r. Rejected (HttpError 401 JNull)" "''alice''" "''bad''" "HttpError 401 JNull"
        "\<lparr>sent = [], storage = [''token'' \<mapsto> ''old''], route = ''/'', alerts = []\<rparr>"]
    login_failure_keeps_store
    [of "\<lambda>r. Rejected NetworkError" "''alice''" "''bad''" NetworkError
        "\<lparr>sent = [], storage = Map.empty, route = ''/'', alerts = []\<rparr>"]
  by simp

section \<open>Signup\<close>

text \<open>
  C8. Whenever the signup request resolves, the handler fulfils with \<open>undefined\<close> and
  the storage afterwards is the storage before: no session is written. It reports
  success and goes back to the login view.
\<close>

theorem signup_success_no_session:
  assumes "API \<lparr>verb = POST,
             url = ''/signup?username='' @ username @ ''&password='' @ password,
             body = NoBody, params = None\<rparr> = Resolved res"
  shows "fst (signup username password API w) = Inr JUndefined
       \<and> storage (snd (signup username password API w)) = storage w
       \<and> route (snd (signup username password API w)) = ''/''
       \<and> alerts (snd (signup username password API w)) = alerts w @ [''Signup success'']"
  using assms by (simp add: signup_run Let_def alert_def nav_def)

theorem signup_success_no_session_witness:
  "fst (signup ''bob'' ''pw'' (\<lambda>r. Resolved \<lparr>status = 200, data = JNull\<rparr>)
      \<lparr>sent = [], storage = Map.empty, route = ''/signup'', alerts = []\<rparr>) = Inr JUndefined
   \<and> storage (snd (signup ''bob'' ''pw'' (\<lambda>r. Resolved \<lparr>status = 200, data = JNull\<rparr>)
      \<lparr>sent = [], storage = Map.empty, route = ''/signup'', alerts = []\<rparr>)) ''token'' = None"
  using signup_success_no_session
    [of "\<lambda>r. Resolved \<lparr>status = 200, data = JNull\<rparr>" "''bob''" "''pw''"
        "\<lparr>status = 200, data = JNull\<rparr>"
        "\<lparr>sent = [], storage = Map.empty, route = ''/signup'', alerts = []\<rparr>"]
  by simp

section \<open>What each handler hands to the axios instance\<close>

text \<open>
  Every call of a handler hands the axios instance exactly one request, whatever the
  answer. Login puts the credentials into a form body, the pairs \<open>username\<close> and
  \<open>password\<close> of a \<open>URLSearchParams\<close>. Signup sends no body and splices them into
  the URL, after \<open>/signup?\<close>. Chat sends the object \<open>{message: msg}\<close> as body. Of
  the helpers, \<open>loginUser\<close> sends a form body, \<open>signupUser\<close> the \<open>params\<close> of the
  config with a \<open>null\<close> body, \<open>sendMessage\<close> the object.
\<close>

lemma request_encodings:
  "sent (snd (login username password API w)) =
     sent w @ [\<lparr>verb = POST, url = ''/login'',
                body = FormBody [(''username'', username), (''password'', password)],
                params = None\<rparr>]
   \<and> sent (snd (signup username password API w)) =
     sent w @ [\<lparr>verb = POST,
                url = ''/signup?username='' @ username @ ''&password='' @ password,
                body = NoBody, params = None\<rparr>]
   \<and> sent (snd (send API c)) =
     sent c @ [\<lparr>verb = POST, url = ''/chat'',
                body = JsonBody (JObj [(''message'', JStr (msg c))]), params = None\<rparr>]
   \<and> sent (snd (loginUser API [(''username'', JStr username), (''password'', JStr password)] w)) =
     sent w @ [\<lparr>verb = POST, url = ''/login'',
                body = FormBody [(''username'', username), (''password'', password)],
                params = None\<rparr>]
   \<and> sent (snd (signupUser API [(''username'', JStr username), (''password'', JStr password)] w)) =
     sent w @ [\<lparr>verb = POST, url = ''/signup'', body = NullBody,
                params = Some [(''username'', JStr username), (''password'', JStr password)]\<rparr>]
   \<and> sent (snd (sendMessage API (JStr m) c)) =
     sent c @ [\<lparr>verb = POST, url = ''/chat'',
                body = JsonBody (JObj [(''message'', JStr m)]), params = None\<rparr>]"
proof -
  have views:
    "sent (snd (login username password API w)) =
       sent w @ [\<lparr>verb = POST, url = ''/login'',
                  body = FormBody [(''username'', username), (''password'', password)],
                  params = None\<rparr>]"
    "sent (snd (signup username password API w)) =
       sent w @ [\<lparr>verb = POST,
                  url = ''/signup?username='' @ username @ ''&password='' @ password,
                  body = NoBody, params = None\<rparr>]"
    "sent (snd (send API c)) =
       sent c @ [\<lparr>verb = POST, url = ''/chat'',
                  body = JsonBody (JObj [(''message'', JStr (msg c))]), params = None\<rparr>]"
    by (simp_all add: login_run signup_run send_sent Let_def alert_def nav_def setItem_def
          chat_request_def split: outcome.splits sum.splits)
  have helpers:
    "sent (snd (loginUser API [(''username'', JStr username), (''password'', JStr password)] w)) =
       sent w @ [\<lparr>verb = POST, url = ''/login'',
                  body = FormBody [(''username'', username), (''password'', password)],
                  params = None\<rparr>]"
    "sent (snd (signupUser API [(''username'', JStr username), (''password'', JStr password)] w)) =
       sent w @ [\<lparr>verb = POST, url = ''/signup'', body = NullBody,
                  params = Some [(''username'', JStr username), (''password'', JStr password)]\<rparr>]"
    "sent (snd (sendMessage API (JStr m) c)) =
       sent c @ [\<lparr>verb = POST, url = ''/chat'',
                  body = JsonBody (JObj [(''message'', JStr m)]), params = None\<rparr>]"
    by (simp_all add: loginUser_def signupUser_def sendMessage_def post_def issue_def)
  from views helpers show ?thesis by simp
qed

section \<open>The signup query\<close>

declare utf8_decode.simps(2) [simp del]

declare percent_decode.simps(2) [simp del]

lemma signup_url:
  "url (last (sent (snd (signup username password API w)))) =
     ''/signup?username='' @ username @ ''&password='' @ password"
  by (simp add: signup_run Let_def alert_def nav_def split: outcome.splits)

lemma split_on_hd: "\<exists>pieces. split_on sep s = takeWhile (\<lambda>c. c \<noteq> sep) s # pieces"
  by (induction s) (auto split: list.splits)

lemma split_on_no_sep: "sep \<notin> set s \<Longrightarrow> split_on sep s = [s]"
  by (induction s) auto

lemma split_on_at_sep: "sep \<notin> set a \<Longrightarrow> split_on sep (a @ sep # b) = a # split_on sep b"
  by (induction a) auto

subsection \<open>What the client does to the URL\<close>

lemma strip_end:
  assumes "ys \<noteq> []" and "\<not> P (last ys)"
  shows "rev (dropWhile P (rev (ys @ p))) = ys @ rev (dropWhile P (rev p))"
proof -
  have "dropWhile P (rev ys) = rev ys"
    using assms by (cases ys rule: rev_cases) auto
  then have "dropWhile P (rev p @ rev ys) = dropWhile P (rev p) @ rev ys"
    by (auto simp: dropWhile_append dropWhile_eq_Nil_conv)
  then show ?thesis by simp
qed

lemma client_trim_signup:
  "client_trim (''/signup?username='' @ username @ ''&password='' @ password) =
     ''/signup?username='' @ filter (\<lambda>c. \<not> tab_or_newline c) username @ ''&password=''
       @ filter (\<lambda>c. \<not> tab_or_newline c) (rev (dropWhile c0_or_space (rev password)))"
proof -
  have front: "dropWhile c0_or_space (''/signup?username='' @ username @ ''&password='' @ password) =
      (''/signup?username='' @ username @ ''&password='') @ password"
    by (simp add: c0_or_space_def)
  have "rev (dropWhile c0_or_space (rev ((''/signup?username='' @ username @ ''&password='') @ password))) =
      (''/signup?username='' @ username @ ''&password='') @ rev (dropWhile c0_or_space (rev password))"
    by (rule strip_end) (simp_all add: c0_or_space_def)
  then show ?thesis
    unfolding client_trim_def front by (simp add: tab_or_newline_def)
qed

lemma query_string_signup:
  "query_string (''/signup?username='' @ username @ ''&password='' @ password) =
     ''username='' @ takeWhile (\<lambda>c. c \<noteq> CHR ''#'')
       (filter (\<lambda>c. \<not> tab_or_newline c) username @ ''&password=''
          @ filter (\<lambda>c. \<not> tab_or_newline c) (rev (dropWhile c0_or_space (rev password))))"
  unfolding query_string_def client_trim_signup by simp

subsection \<open>Decoding never lengthens ASCII text\<close>

lemma percent_decode_other:
  "c \<noteq> CHR ''%'' \<Longrightarrow> percent_decode (c # cs) = c # percent_decode cs"
  by (subst percent_decode.simps(2)) simp

lemma percent_decode_escape:
  "hex_val a = Some va \<Longrightarrow> hex_val b = Some vb \<Longrightarrow>
     percent_decode (CHR ''%'' # a # b # rest) = char_of (16 * va + vb) # percent_decode rest"
  by (subst percent_decode.simps(2)) simp

lemma percent_decode_literal:
  "hex_val a = None \<or> hex_val b = None \<Longrightarrow>
     percent_decode (CHR ''%'' # a # b # rest) = CHR ''%'' # percent_decode (a # b # rest)"
  by (subst percent_decode.simps(2)) (auto split: option.splits)

lemma percent_decode_short:
  "percent_decode [CHR ''%''] = [CHR ''%'']"
  "percent_decode [CHR ''%'', a] = CHR ''%'' # percent_decode [a]"
  by (subst percent_decode.simps(2), simp)+

lemma percent_decode_step:
  "percent_decode (c # cs) = c # percent_decode cs
   \<or> (\<exists>a b rest v. cs = a # b # rest \<and> percent_decode (c # cs) = v # percent_decode rest)"
proof (cases "c = CHR ''%''")
  case False
  then show ?thesis by (simp add: percent_decode_other)
next
  case True
  show ?thesis
  proof (cases cs)
    case Nil
    with True show ?thesis by (simp add: percent_decode_short)
  next
    case outer: (Cons a as)
    show ?thesis
    proof (cases as)
      case Nil
      with True outer show ?thesis by (simp add: percent_decode_short)
    next
      case inner: (Cons b rest)
      show ?thesis
      proof (cases "hex_val a = None \<or> hex_val b = None")
        case True
        from percent_decode_literal [OF this] \<open>c = CHR ''%''\<close> outer inner
        show ?thesis by simp
      next
        case False
        then obtain va vb where "hex_val a = Some va" "hex_val b = Some vb"
          by auto
        from percent_decode_escape [OF this] \<open>c = CHR ''%''\<close> outer inner
        show ?thesis by simp
      qed
    qed
  qed
qed

lemma length_replacement: "length replacement = 3"
  by (simp add: replacement_def)

lemma utf8_ascii_byte: "between 0 127 b \<Longrightarrow> utf8_decode (b # bs) = b # utf8_decode bs"
  by (simp add: utf8_decode.simps(2) split del: if_split)

lemma utf8_bad_byte:
  assumes "\<not> between 0 127 b" "\<not> between 194 223 b" "\<not> between 224 239 b" "\<not> between 240 244 b"
  shows "utf8_decode (b # bs) = replacement @ utf8_decode bs"
  using assms by (simp add: utf8_decode.simps(2) split del: if_split)

lemma utf8_stray: "between 128 191 c \<Longrightarrow> utf8_decode (c # r) = replacement @ utf8_decode r"
  by (rule utf8_bad_byte) (simp_all add: between_def)

lemma stray_len: "between 128 191 c \<Longrightarrow> length (utf8_decode (c # r)) = 3 + length (utf8_decode r)"
  by (simp add: utf8_stray length_replacement)

lemma utf8_two:
  "between 194 223 b \<Longrightarrow> utf8_decode (b # bs) =
     (case bs of
        [] \<Rightarrow> replacement
      | c1 # r1 \<Rightarrow>
          if between 128 191 c1 then b # c1 # utf8_decode r1
          else replacement @ utf8_decode bs)"
  by (simp add: utf8_decode.simps(2) between_def split del: if_split
        cong: list.case_cong_weak if_weak_cong)

lemma utf8_three:
  "between 224 239 b \<Longrightarrow> utf8_decode (b # bs) =
     (case bs of
        [] \<Rightarrow> replacement
      | c1 # r1 \<Rightarrow>
          if between (if between 224 224 b then 160 else 128)
                     (if between 237 237 b then 159 else 191) c1 then
            (case r1 of
               [] \<Rightarrow> replacement
             | c2 # r2 \<Rightarrow>
                 if between 128 191 c2 then b # c1 # c2 # utf8_decode r2
                 else replacement @ utf8_decode r1)
          else replacement @ utf8_decode bs)"
  by (simp add: utf8_decode.simps(2) between_def split del: if_split
        cong: list.case_cong_weak if_weak_cong)

lemma utf8_four:
  "between 240 244 b \<Longrightarrow> utf8_decode (b # bs) =
     (case bs of
        [] \<Rightarrow> replacement
      | c1 # r1 \<Rightarrow>
          if between (if between 240 240 b then 144 else 128)
                     (if between 244 244 b then 143 else 191) c1 then
            (case r1 of
               [] \<Rightarrow> replacement
             | c2 # r2 \<Rightarrow>
                 if between 128 191 c2 then
                   (case r2 of
                      [] \<Rightarrow> replacement
                    | c3 # r3 \<Rightarrow>
                        if between 128 191 c3 then b # c1 # c2 # c3 # utf8_decode r3
                        else replacement @ utf8_decode r2)
                 else replacement @ utf8_decode r1)
          else replacement @ utf8_decode bs)"
  by (simp add: utf8_decode.simps(2) between_def split del: if_split
        cong: list.case_cong_weak if_weak_cong)

lemma utf8_decode_prepend: "length (utf8_decode (b # y)) \<le> 3 + length (utf8_decode y)"
proof -
  consider (one) "between 0 127 b" | (two) "between 194 223 b" | (three) "between 224 239 b"
    | (four) "between 240 244 b"
    | (bad) "\<not> between 0 127 b" "\<not> between 194 223 b" "\<not> between 224 239 b" "\<not> between 240 244 b"
    by blast
  then show ?thesis
  proof cases
    case one
    then show ?thesis by (simp add: utf8_ascii_byte)
  next
    case two
    then show ?thesis
      by (auto simp: utf8_two stray_len length_replacement split: list.splits)
  next
    case three
    then show ?thesis
      by (auto simp: utf8_three stray_len between_def length_replacement
            split: list.splits if_splits)
  next
    case four
    then show ?thesis
      by (auto simp: utf8_four stray_len between_def length_replacement
            split: list.splits if_splits)
  next
    case bad
    then show ?thesis by (simp add: utf8_bad_byte length_replacement)
  qed
qed

lemma utf8_percent_decode_length:
  "ascii x \<Longrightarrow> length (utf8_decode (percent_decode x)) \<le> length x"
proof (induction "length x" arbitrary: x rule: less_induct)
  case less
  show ?case
  proof (cases x)
    case Nil
    then show ?thesis by simp
  next
    case (Cons c cs)
    with less.prems have c: "between 0 127 c" and cs: "ascii cs"
      by (simp_all add: ascii_def)
    from percent_decode_step [of c cs] show ?thesis
    proof
      assume kept: "percent_decode (c # cs) = c # percent_decode cs"
      have "length (utf8_decode (percent_decode cs)) \<le> length cs"
        using less.hyps [of cs] cs Cons by simp
      then show ?thesis
        by (simp only: Cons kept utf8_ascii_byte [OF c]) simp
    next
      assume "\<exists>a b rest v. cs = a # b # rest \<and> percent_decode (c # cs) = v # percent_decode rest"
      then obtain a b rest v where shape: "cs = a # b # rest"
        and decoded: "percent_decode (c # cs) = v # percent_decode rest"
        by blast
      have "ascii rest"
        using cs shape by (simp add: ascii_def)
      then have shorter: "length (utf8_decode (percent_decode rest)) \<le> length rest"
        using less.hyps [of rest] Cons shape by simp
      have "length (utf8_decode (v # percent_decode rest))
              \<le> 3 + length (utf8_decode (percent_decode rest))"
        by (rule utf8_decode_prepend)
      also have "\<dots> \<le> 3 + length rest"
        using shorter by simp
      also have "\<dots> = length x"
        using Cons shape by simp
      finally show ?thesis
        by (simp only: Cons decoded)
    qed
  qed
qed

lemma form_decode_length: "ascii s \<Longrightarrow> length (form_decode s) \<le> length s"
proof -
  assume "ascii s"
  then have "ascii (map (\<lambda>c. if c = CHR ''+'' then CHR '' '' else c) s)"
    by (induction s) (auto simp: ascii_def between_def)
  from utf8_percent_decode_length [OF this] show ?thesis
    by (simp add: form_decode_def)
qed

lemma utf8_decode_ascii: "ascii s \<Longrightarrow> utf8_decode s = s"
  by (induction s) (simp_all add: ascii_def utf8_ascii_byte)

lemma percent_decode_plain: "CHR ''%'' \<notin> set s \<Longrightarrow> percent_decode s = s"
  by (induction s) (auto simp: percent_decode_other)

lemma plain_chars:
  assumes "plain s"
  shows "CHR ''&'' \<notin> set s" "CHR ''#'' \<notin> set s" "CHR ''+'' \<notin> set s" "CHR ''%'' \<notin> set s"
    and "ascii s"
proof -
  from assms have each: "\<And>c. c \<in> set s \<Longrightarrow> between 33 126 c \<and> c \<notin> set ''&#+%''"
    by (simp add: plain_def list_all_iff)
  show "CHR ''&'' \<notin> set s"
  proof
    assume "CHR ''&'' \<in> set s"
    from each [OF this] show False by simp
  qed
  show "CHR ''#'' \<notin> set s"
  proof
    assume "CHR ''#'' \<in> set s"
    from each [OF this] show False by simp
  qed
  show "CHR ''+'' \<notin> set s"
  proof
    assume "CHR ''+'' \<in> set s"
    from each [OF this] show False by simp
  qed
  show "CHR ''%'' \<notin> set s"
  proof
    assume "CHR ''%'' \<in> set s"
    from each [OF this] show False by simp
  qed
  have "between 0 127 c" if "c \<in> set s" for c
    using each [OF that] by (simp add: between_def)
  then show "ascii s"
    by (simp add: ascii_def list_all_iff)
qed

lemma form_decode_plain:
  assumes "plain s"
  shows "form_decode s = s"
proof -
  have "map (\<lambda>c. if c = CHR ''+'' then CHR '' '' else c) s = s"
    using plain_chars(3) [OF assms] by (induction s) auto
  then show ?thesis
    using plain_chars(4,5) [OF assms]
    by (simp add: form_decode_def percent_decode_plain utf8_decode_ascii)
qed

lemma takeWhile_within:
  "\<exists>x \<in> set xs. \<not> P x \<Longrightarrow> takeWhile P (takeWhile Q (xs @ ys)) = takeWhile P (takeWhile Q xs)"
proof (induction xs)
  case Nil
  then show ?case by simp
next
  case (Cons x xs)
  then show ?case by (cases "P x") auto
qed

lemma takeWhile_cut_short:
  "\<exists>x \<in> set xs. \<not> P x \<Longrightarrow> length (takeWhile P (takeWhile Q xs)) < length xs"
proof (induction xs)
  case Nil
  then show ?case by simp
next
  case (Cons x xs)
  then show ?case by (cases "P x") auto
qed

lemma query_params_username_first:
  assumes "query_string u = ''username='' @ rest"
  shows "\<exists>others. query_params u =
           (''username'', form_decode (takeWhile (\<lambda>c. c \<noteq> CHR ''&'') rest)) # others"
proof -
  have name: "form_decode ''username'' = ''username''"
    by (rule form_decode_plain) (simp add: plain_def between_def)
  obtain pieces where
    "split_on CHR ''&'' (''username='' @ rest) =
       takeWhile (\<lambda>c. c \<noteq> CHR ''&'') (''username='' @ rest) # pieces"
    using split_on_hd by blast
  then have "split_on CHR ''&'' (query_string u) =
       (''username='' @ takeWhile (\<lambda>c. c \<noteq> CHR ''&'') rest) # pieces"
    using assms by (simp del: split_on.simps)
  moreover have "parse_pair (''username='' @ takeWhile (\<lambda>c. c \<noteq> CHR ''&'') rest) =
      (''username'', form_decode (takeWhile (\<lambda>c. c \<noteq> CHR ''&'') rest))"
    using name by (simp add: parse_pair_def)
  ultimately show ?thesis
    by (simp add: query_params_def del: split_on.simps)
qed

text \<open>
  Plain credentials are read back as they were typed; an \<open>=\<close> inside one does no harm,
  since a piece is split at its first \<open>=\<close>.
\<close>

lemma signup_plain_credentials_arrive:
  assumes "plain username" and "plain password"
  shows "query_params (''/signup?username='' @ username @ ''&password='' @ password) =
           [(''username'', username), (''password'', password)]"
proof -
  have keep: "filter (\<lambda>c. \<not> tab_or_newline c) s = s" if "plain s" for s
    using that by (induction s) (auto simp: plain_def tab_or_newline_def between_def)
  have untrimmed: "rev (dropWhile c0_or_space (rev password)) = password"
  proof (cases password rule: rev_cases)
    case Nil
    then show ?thesis by simp
  next
    case (snoc front c)
    with assms(2) have "\<not> c0_or_space c"
      by (simp add: plain_def c0_or_space_def between_def)
    with snoc show ?thesis by simp
  qed
  have no_hash: "CHR ''#'' \<notin> set username" "CHR ''#'' \<notin> set password"
    and no_amp: "CHR ''&'' \<notin> set username" "CHR ''&'' \<notin> set password"
    using assms by (simp_all add: plain_chars)
  have whole: "takeWhile (\<lambda>c. c \<noteq> CHR ''#'') (username @ ''&password='' @ password) =
      username @ ''&password='' @ password"
    using no_hash by (auto simp: takeWhile_eq_all_conv)
  have "query_string (''/signup?username='' @ username @ ''&password='' @ password) =
      ''username='' @ takeWhile (\<lambda>c. c \<noteq> CHR ''#'') (username @ ''&password='' @ password)"
    by (simp only: query_string_signup untrimmed keep [OF assms(1)] keep [OF assms(2)])
  with whole have "query_string (''/signup?username='' @ username @ ''&password='' @ password) =
      (''username='' @ username) @ CHR ''&'' # (''password='' @ password)"
    by simp
  moreover have "split_on CHR ''&'' ((''username='' @ username) @ CHR ''&'' # (''password='' @ password)) =
      [''username='' @ username, ''password='' @ password]"
    using no_amp by (subst split_on_at_sep) (auto simp: split_on_no_sep simp del: split_on.simps)
  moreover have "form_decode ''username'' = ''username''" "form_decode ''password'' = ''password''"
    by (rule form_decode_plain, simp add: plain_def between_def)+
  then have "parse_pair (''username='' @ username) = (''username'', username)"
    "parse_pair (''password='' @ password) = (''password'', password)"
    using assms by (simp_all add: parse_pair_def form_decode_plain)
  ultimately show ?thesis
    by (simp add: query_params_def del: split_on.simps)
qed

subsection \<open>What the endpoint reads off the signup URL\<close>

text \<open>
  C7, at the input \<open>a&b\<close>, \<open>p\<close>: the view's signup does not carry the credentials as
  query parameters. The endpoint reads a username \<open>a\<close> and a further parameter \<open>b\<close>.
  The helper \<open>signupUser\<close>, given the same credentials, hands both to the axios
  instance intact, as the \<open>params\<close> of the request.
\<close>

theorem signup_query_failing_input:
  "query_params (url (last (sent (snd (signup ''a&b'' ''p'' (\<lambda>r. Rejected NetworkError)
        \<lparr>sent = [], storage = Map.empty, route = ''/signup'', alerts = []\<rparr>)))))
      = [(''username'', ''a''), (''b'', []), (''password'', ''p'')]
   \<and> params (last (sent (snd (signupUser (\<lambda>r. Rejected NetworkError)
        [(''username'', JStr ''a&b''), (''password'', JStr ''p'')]
        \<lparr>sent = [], storage = Map.empty, route = ''/signup'', alerts = []\<rparr>))))
      = Some [(''username'', JStr ''a&b''), (''password'', JStr ''p'')]"
  by (simp add: signup_url signupUser_def post_def issue_def query_params_def query_string_def
        client_trim_def c0_or_space_def tab_or_newline_def parse_pair_def form_decode_def
        percent_decode_other utf8_ascii_byte between_def)

text \<open>
  C9, as stated, fails in its second example: a username containing \<open>=\<close> is read
  back as submitted, and the password with it.
\<close>

theorem signup_equals_sign_counterexample:
  "query_params (url (last (sent (snd (signup ''a=b'' ''p'' (\<lambda>r. Rejected NetworkError)
        \<lparr>sent = [], storage = Map.empty, route = ''/signup'', alerts = []\<rparr>)))))
      = [(''username'', ''a=b''), (''password'', ''p'')]"
proof -
  have "plain ''a=b''" and "plain ''p''"
    by (simp_all add: plain_def between_def)
  then have "query_params (''/signup?username='' @ ''a=b'' @ ''&password='' @ ''p'') =
      [(''username'', ''a=b''), (''password'', ''p'')]"
    by (rule signup_plain_credentials_arrive)
  then show ?thesis
    by (simp only: signup_url)
qed

text \<open>
  C9, amended. The signup URL is the two credentials spliced in as typed, whatever they
  are. So whenever an ASCII username contains an \<open>&\<close>, the endpoint reads a
  \<open>username\<close> parameter that is not the submitted username, and the parameters it
  reads are not the submitted pair: the \<open>&\<close> ends the value early.
\<close>

theorem signup_ampersand_breaks_credentials:
  "url (last (sent (snd (signup username password API w)))) =
     ''/signup?username='' @ username @ ''&password='' @ password
   \<and> (CHR ''&'' \<in> set username \<and> ascii username \<longrightarrow>
        map_of (query_params (url (last (sent (snd (signup username password API w))))))
          ''username'' \<noteq> Some username
      \<and> query_params (url (last (sent (snd (signup username password API w)))))
          \<noteq> [(''username'', username), (''password'', password)])"
proof (rule conjI)
  show "url (last (sent (snd (signup username password API w)))) =
     ''/signup?username='' @ username @ ''&password='' @ password"
    by (rule signup_url)
next
  show "CHR ''&'' \<in> set username \<and> ascii username \<longrightarrow>
        map_of (query_params (url (last (sent (snd (signup username password API w))))))
          ''username'' \<noteq> Some username
      \<and> query_params (url (last (sent (snd (signup username password API w)))))
          \<noteq> [(''username'', username), (''password'', password)]"
  proof (rule impI)
  assume hyp: "CHR ''&'' \<in> set username \<and> ascii username"
  let ?kept = "filter (\<lambda>c. \<not> tab_or_newline c) username"
  let ?tail = "''&password=''
      @ filter (\<lambda>c. \<not> tab_or_newline c) (rev (dropWhile c0_or_space (rev password)))"
  let ?v = "takeWhile (\<lambda>c. c \<noteq> CHR ''&'') (takeWhile (\<lambda>c. c \<noteq> CHR ''#'') (?kept @ ?tail))"
  have amp: "\<exists>x \<in> set ?kept. \<not> x \<noteq> CHR ''&''"
    using hyp by (auto simp: tab_or_newline_def)
  have inside: "?v = takeWhile (\<lambda>c. c \<noteq> CHR ''&'') (takeWhile (\<lambda>c. c \<noteq> CHR ''#'') ?kept)"
    using amp by (rule takeWhile_within)
  have "length ?v < length ?kept"
    unfolding inside using amp by (rule takeWhile_cut_short)
  also have "length ?kept \<le> length username"
    by simp
  finally have short: "length ?v < length username" .
  have "set ?v \<subseteq> set username"
    unfolding inside by (auto dest!: set_takeWhileD)
  with hyp have "ascii ?v"
    by (auto simp: ascii_def list_all_iff)
  then have "length (form_decode ?v) \<le> length ?v"
    by (rule form_decode_length)
  with short have differs: "form_decode ?v \<noteq> username"
    by auto
  obtain others where
    "query_params (''/signup?username='' @ username @ ''&password='' @ password) =
       (''username'', form_decode ?v) # others"
    using query_params_username_first [OF query_string_signup] by blast
  then have "query_params (url (last (sent (snd (signup username password API w))))) =
      (''username'', form_decode ?v) # others"
    by (simp only: signup_url)
  with differs
  show "map_of (query_params (url (last (sent (snd (signup username password API w))))))
          ''username'' \<noteq> Some username
      \<and> query_params (url (last (sent (snd (signup username password API w)))))
          \<noteq> [(''username'', username), (''password'', password)]"
    by simp
  qed
qed

theorem signup_ampersand_breaks_credentials_witness:
  "CHR ''&'' \<in> set ''x&y'' \<and> ascii ''x&y''
   \<and> url (last (sent (snd (signup ''x&y'' ''pw'' (\<lambda>r. Rejected NetworkError)
        \<lparr>sent = [], storage = Map.empty, route = ''/signup'', alerts = []\<rparr>))))
      = ''/signup?username=x&y&password=pw''
   \<and> map_of (query_params (url (last (sent (snd (signup ''x&y'' ''pw'' (\<lambda>r. Rejected NetworkError)
        \<lparr>sent = [], storage = Map.empty, route = ''/signup'', alerts = []\<rparr>))))))
        ''username'' \<noteq> Some ''x&y''
   \<and> query_params (url (last (sent (snd (signup ''x&y'' ''pw'' (\<lambda>r. Rejected NetworkError)
        \<lparr>sent = [], storage = Map.empty, route = ''/signup'', alerts = []\<rparr>)))))
      \<noteq> [(''username'', ''x&y''), (''password'', ''pw'')]"
proof -
  have here: "CHR ''&'' \<in> set ''x&y'' \<and> ascii ''x&y''"
    by (simp add: ascii_def between_def)
  note at_input = signup_ampersand_breaks_credentials
      [where username = "''x&y''" and password = "''pw''" and API = "\<lambda>r. Rejected NetworkError"
         and w = "\<lparr>sent = [], storage = Map.empty, route = ''/signup'', alerts = []\<rparr>"]
  from at_input have spliced:
    "url (last (sent (snd (signup ''x&y'' ''pw'' (\<lambda>r. Rejected NetworkError)
        \<lparr>sent = [], storage = Map.empty, route = ''/signup'', alerts = []\<rparr>))))
      = ''/signup?username=x&y&password=pw''"
    by simp
  from at_input here have
    "map_of (query_params (url (last (sent (snd (signup ''x&y'' ''pw'' (\<lambda>r. Rejected NetworkError)
        \<lparr>sent = [], storage = Map.empty, route = ''/signup'', alerts = []\<rparr>))))))
        ''username'' \<noteq> Some ''x&y''
     \<and> query_params (url (last (sent (snd (signup ''x&y'' ''pw'' (\<lambda>r. Rejected NetworkError)
        \<lparr>sent = [], storage = Map.empty, route = ''/signup'', alerts = []\<rparr>)))))
      \<noteq> [(''username'', ''x&y''), (''password'', ''pw'')]"
    by blast
  with here spliced show ?thesis
    by blast
qed

section \<open>Chat\<close>

text \<open>
  C3, as the specification states it, fails at two calls: after two successful
  exchanges the state holds the second exchange only, two Messages and not four; the
  first text and the first reply are gone.
\<close>

theorem sends_history_counterexample:
  "map_option (\<lambda>c. (msg c, reply c)) (sends
      [(''hi'', \<lambda>r. Resolved \<lparr>status = 200, data = JObj [(''bot_reply'', JStr ''hello'')]\<rparr>),
       (''more'', \<lambda>r. Resolved \<lparr>status = 200, data = JObj [(''bot_reply'', JStr ''sure'')]\<rparr>)]
      chat_init) = Some (''more'', JStr ''sure'')
   \<and> map_option transcript (sends
      [(''hi'', \<lambda>r. Resolved \<lparr>status = 200, data = JObj [(''bot_reply'', JStr ''hello'')]\<rparr>),
       (''more'', \<lambda>r. Resolved \<lparr>status = 200, data = JObj [(''bot_reply'', JStr ''sure'')]\<rparr>)]
      chat_init)
     \<noteq> Some [\<lparr>role = User, content = JStr ''hi''\<rparr>, \<lparr>role = Bot, content = JStr ''hello''\<rparr>,
              \<lparr>role = User, content = JStr ''more''\<rparr>, \<lparr>role = Bot, content = JStr ''sure''\<rparr>]
   \<and> map_option (\<lambda>c. length (transcript c)) (sends
      [(''hi'', \<lambda>r. Resolved \<lparr>status = 200, data = JObj [(''bot_reply'', JStr ''hello'')]\<rparr>),
       (''more'', \<lambda>r. Resolved \<lparr>status = 200, data = JObj [(''bot_reply'', JStr ''sure'')]\<rparr>)]
      chat_init)
     \<noteq> Some (2 * length
      [(''hi'', \<lambda>r. Resolved \<lparr>status = 200, data = JObj [(''bot_reply'', JStr ''hello'')]\<rparr>),
       (''more'', \<lambda>r. Resolved \<lparr>status = 200, data = JObj [(''bot_reply'', JStr ''sure'')]\<rparr>)])"
  by (simp add: sends_step send_reply send_msg setMsg_def replied_def chat_request_def
        transcript_def del: sends.simps(2))

text \<open>
  C3, amended. After any run of one or more sends that all succeed, with string replies
  \<open>vs\<close> in call order, the view is still mounted and its state holds the last
  exchange and nothing else: \<open>msg\<close> is the text sent last and \<open>reply\<close> the reply of
  the last call. Read as a conversation that is two Messages, user then bot, whatever
  the number of calls.
\<close>

theorem sends_keep_last_reply_only:
  assumes "cs \<noteq> []"
    and "map (\<lambda>(m, A). replied A m) cs = map (\<lambda>shown. Some (JStr shown)) vs"
  shows "map_option (\<lambda>c1. (msg c1, reply c1)) (sends cs c) = Some (fst (last cs), JStr (last vs))
       \<and> map_option transcript (sends cs c) =
           Some [\<lparr>role = User, content = JStr (fst (last cs))\<rparr>,
                 \<lparr>role = Bot, content = JStr (last vs)\<rparr>]"
proof -
  from assms have "vs \<noteq> []" by auto
  with sends_strings [OF assms(2), of c] assms(1) obtain c1 where "sends cs c = Some c1"
    and "msg c1 = fst (last cs)" and "reply c1 = JStr (last vs)"
    by auto
  then show ?thesis
    by (simp add: transcript_def)
qed

theorem sends_keep_last_reply_only_witness:
  "map_option transcript (sends
      [(''hi'', \<lambda>r. Resolved \<lparr>status = 200, data = JObj [(''bot_reply'', JStr ''hello'')]\<rparr>),
       (''more'', \<lambda>r. Resolved \<lparr>status = 200, data = JObj [(''bot_reply'', JStr ''sure'')]\<rparr>)]
      chat_init)
     = Some [\<lparr>role = User, content = JStr ''more''\<rparr>, \<lparr>role = Bot, content = JStr ''sure''\<rparr>]"
  using sends_keep_last_reply_only
    [of "[(''hi'', \<lambda>r. Resolved \<lparr>status = 200, data = JObj [(''bot_reply'', JStr ''hello'')]\<rparr>),
          (''more'', \<lambda>r. Resolved \<lparr>status = 200, data = JObj [(''bot_reply'', JStr ''sure'')]\<rparr>)]"
        "[''hello'', ''sure'']" chat_init]
  by (simp add: replied_def chat_request_def del: sends.simps(2))




text \<open>
  C10, as stated, fails in its second half: the state does hold a user message. After a
  successful send of \<open>hi\<close> the cell \<open>msg\<close> still holds \<open>hi\<close>, the very text
  the request carried.
\<close>

theorem chat_holds_sent_text_counterexample:
  "map_option msg (sends
      [(''hi'', \<lambda>r. Resolved \<lparr>status = 200, data = JObj [(''bot_reply'', JStr ''hello'')]\<rparr>)]
      chat_init) = Some ''hi''
   \<and> map_option (\<lambda>c. body (last (sent c))) (sends
      [(''hi'', \<lambda>r. Resolved \<lparr>status = 200, data = JObj [(''bot_reply'', JStr ''hello'')]\<rparr>)]
      chat_init) = Some (JsonBody (JObj [(''message'', JStr ''hi'')]))
   \<and> map_option transcript (sends
      [(''hi'', \<lambda>r. Resolved \<lparr>status = 200, data = JObj [(''bot_reply'', JStr ''hello'')]\<rparr>)]
      chat_init)
     = Some [\<lparr>role = User, content = JStr ''hi''\<rparr>, \<lparr>role = Bot, content = JStr ''hello''\<rparr>]"
  by (simp add: sends_step send_reply send_msg send_sent setMsg_def replied_def chat_request_def
        transcript_def del: sends.simps(2))

text \<open>
  C10, amended. The state of a mounted view is the two cells \<open>msg\<close> and \<open>reply\<close>:
  one user text and one bot reply at most. A send that succeeds overwrites \<open>reply\<close>,
  whatever it held. So after any run of sends in which every reply was one React can
  render, a call brought back \<open>v\<close> and every later call failed, the view is still
  mounted, \<open>reply\<close> is \<open>v\<close> and \<open>msg\<close> is the text typed last; nothing of the
  earlier exchanges is left.
\<close>

theorem chat_retains_latest_reply:
  assumes "child_text (reply c) \<noteq> None"
    and "list_all (\<lambda>(m1, A1). case replied A1 m1 of None \<Rightarrow> True | Some v1 \<Rightarrow> child_text v1 \<noteq> None)
           earlier"
    and "replied A m = Some v"
    and "child_text v \<noteq> None"
    and "list_all (\<lambda>(m2, A2). replied A2 m2 = None) later"
  shows "map_option (\<lambda>c1. (msg c1, reply c1)) (sends (earlier @ (m, A) # later) c)
           = Some (fst (last ((m, A) # later)), v)"
proof -
  from sends_stay_mounted [OF assms(1,2)] obtain c1 where c1: "sends earlier c = Some c1"
    by blast
  let ?c2 = "snd (send A (setMsg m c1))"
  have c2: "reply ?c2 = v" "msg ?c2 = m"
    by (simp_all add: send_reply send_msg setMsg_def assms(3))
  with assms(4) have mounted: "child_text (reply ?c2) \<noteq> None" by simp
  from sends_all_fail [OF mounted assms(5)] obtain c3 where c3: "sends later ?c2 = Some c3"
    and "reply c3 = reply ?c2"
    and "msg c3 = (if later = [] then msg ?c2 else fst (last later))"
    by blast
  then have "sends (earlier @ (m, A) # later) c = Some c3"
    using c1 mounted by (simp add: sends_append sends_step del: sends.simps(2))
  with c2 \<open>reply c3 = reply ?c2\<close> \<open>msg c3 = (if later = [] then msg ?c2 else fst (last later))\<close>
  show ?thesis
    by simp
qed

theorem chat_retains_latest_reply_witness:
  "map_option (\<lambda>c1. (msg c1, reply c1)) (sends
      ([(''a'', \<lambda>r. Resolved \<lparr>status = 200, data = JObj [(''bot_reply'', JStr ''one'')]\<rparr>)]
       @ (''b'', \<lambda>r. Resolved \<lparr>status = 200, data = JObj [(''bot_reply'', JStr ''two'')]\<rparr>)
       # [(''c'', \<lambda>r. Rejected NetworkError)])
      chat_init) = Some (''c'', JStr ''two'')"
  using chat_retains_latest_reply
    [of chat_init
        "[(''a'', \<lambda>r. Resolved \<lparr>status = 200, data = JObj [(''bot_reply'', JStr ''one'')]\<rparr>)]"
        "\<lambda>r. Resolved \<lparr>status = 200, data = JObj [(''bot_reply'', JStr ''two'')]\<rparr>"
        "''b''" "JStr ''two''" "[(''c'', \<lambda>r. Rejected NetworkError)]"]
  by (simp add: replied_def chat_request_def chat_init_def del: sends.simps(2))

section \<open>The dispatcher\<close>

text \<open>
  C5. An authorized request sent while the store holds no session comes back as
  \<open>Unauthenticated\<close> with the dispatcher as it was: the transport has not been used,
  its call count is the same, and the answer does not depend on the transport.
\<close>

theorem unauthenticated_fails_fast:
  assumes "authorized spec" and "store_get d = None"
  shows "dispatcher_send tr spec d = (Inl Unauthenticated, d)
       \<and> transport_calls (snd (dispatcher_send tr spec d)) = transport_calls d"
  using assms by (simp add: dispatcher_send_def)

theorem unauthenticated_fails_fast_witness:
  "dispatcher_send (\<lambda>spec bearer. Response Success (JObj [(''bot_reply'', JStr ''hello'')]))
      \<lparr>spec_method = POST, path = ''/chat'', encoding = StructuredBody,
       payload = JObj [(''message'', JStr ''x'')], authorized = True\<rparr>
      \<lparr>session_store = None, transport_calls = 0\<rparr>
     = (Inl Unauthenticated, \<lparr>session_store = None, transport_calls = 0\<rparr>)"
  using unauthenticated_fails_fast
    [of "\<lparr>spec_method = POST, path = ''/chat'', encoding = StructuredBody,
          payload = JObj [(''message'', JStr ''x'')], authorized = True\<rparr>"
        "\<lparr>session_store = None, transport_calls = 0\<rparr>"
        "\<lambda>spec bearer. Response Success (JObj [(''bot_reply'', JStr ''hello'')])"]
  by (simp add: store_get_def)

text \<open>
  C6. An authorized request that is sent, the store holding a session, and answered
  with an authorization-failure status comes back as \<open>Unauthenticated\<close>, and the
  store is empty afterwards; the transport was used once.
\<close>

theorem authorization_failure_clears_store:
  assumes "authorized spec" and "store_get d = Some s"
    and "tr spec (Some (token s)) = Response AuthorizationFailure b"
  shows "fst (dispatcher_send tr spec d) = Inl Unauthenticated
       \<and> store_get (snd (dispatcher_send tr spec d)) = None
       \<and> transport_calls (snd (dispatcher_send tr spec d)) = Suc (transport_calls d)"
  using assms by (simp add: dispatcher_send_def round_trip_def store_get_def store_clear_def)

theorem authorization_failure_clears_store_witness:
  "dispatcher_send (\<lambda>spec bearer. Response AuthorizationFailure JNull)
      \<lparr>spec_method = POST, path = ''/chat'', encoding = StructuredBody,
       payload = JObj [(''message'', JStr ''x'')], authorized = True\<rparr>
      \<lparr>session_store = Some \<lparr>token = ''tok123'', issuedAt = 7\<rparr>, transport_calls = 0\<rparr>
     = (Inl Unauthenticated, \<lparr>session_store = None, transport_calls = 1\<rparr>)"
  using authorization_failure_clears_store
    [of "\<lparr>spec_method = POST, path = ''/chat'', encoding = StructuredBody,
          payload = JObj [(''message'', JStr ''x'')], authorized = True\<rparr>"
        "\<lparr>session_store = Some \<lparr>token = ''tok123'', issuedAt = 7\<rparr>, transport_calls = 0\<rparr>"
        "\<lparr>token = ''tok123'', issuedAt = 7\<rparr>"
        "\<lambda>spec bearer. Response AuthorizationFailure JNull" JNull]
  by (simp add: store_get_def dispatcher_send_def round_trip_def store_clear_def)

end
